theory Spec2Isabelle
  imports Complex_Main
begin

section \<open>The interview page: values\<close>

text \<open>
  The page is one function component, \<^verbatim>\<open>App\<close> of \<^verbatim>\<open>src/App.tsx\<close>. Its state is six
  \<^verbatim>\<open>useState\<close> cells; its handlers are closures made anew by every call of \<^verbatim>\<open>App\<close>
  (every render).

  A reply of the model is whatever \<^verbatim>\<open>res.json()\<close> yields, so a reply text can be any
  JSON value; the transcript and the displayed reply hold it as it is. An object is the
  list of its members, each key once; \<open>JNum\<close> holds the value of a number, of which the
  code only asks whether it is zero.
\<close>

datatype json =
    JNull
  | JBool bool
  | JNum rat
  | JStr string
  | JArr "json list"
  | JObj "(string \<times> json) list"

datatype role = User | Model

record message =
  role :: role
  mtext :: json

record app_state =
  conversation :: "message list"
  userText :: string
  aiText :: json
  questionCount :: int
  isProcessing :: bool
  isInterviewActive :: bool

text \<open>The state of the first render: the arguments of the six \<^verbatim>\<open>useState\<close> calls.\<close>

definition initial_state :: app_state where
  "initial_state =
     \<lparr>conversation = [], userText = [], aiText = JStr [], questionCount = 0,
      isProcessing = False, isInterviewActive = False\<rparr>"

text \<open>One entry of the request body's \<^verbatim>\<open>contents\<close>: \<^verbatim>\<open>{role, parts: [{text}]}\<close>.\<close>

record content =
  crole :: role
  parts :: "json list"

text \<open>
  What a handler does to the browser: the calls it makes, in order, and the callbacks it
  leaves behind. A callback is a closure of one render (one call of \<^verbatim>\<open>App\<close>), so it
  carries what that render bound:
  \<^item> the state \<open>r\<close>: \<^verbatim>\<open>isInterviewActive\<close>, \<^verbatim>\<open>isProcessing\<close>, \<^verbatim>\<open>questionCount\<close> and
    \<^verbatim>\<open>conversation\<close> are constants of the render, and a setter changes the stored cell
    that the next render reads, never the constant a closure already holds;
  \<^item> the render's number \<open>k\<close>, which names its recogniser: lines 14--19 make a new
    recogniser object in every render, and \<^verbatim>\<open>start()\<close> and \<^verbatim>\<open>stop()\<close> act on the
    object of the closure that calls them.
  \<^verbatim>\<open>speechSynthesis\<close> is one object of the browser, which the code uses unguarded.
\<close>

datatype call =
    RecognitionStart nat
  | RecognitionStop nat
  | SynthSpeak json
  | SynthCancel
  | SetTimeout nat
  | Fetch "content list"
  | ConsoleError

datatype callback =
    UtteranceOnEnd nat app_state
  | TimeoutStartListening nat app_state
  | RecognitionOnResult nat app_state
  | FetchReply nat app_state string

type_synonym effects = "call list \<times> callback list"

section \<open>The handlers\<close>

text \<open>
  Every handler takes its closure: the number \<open>k\<close> and the state \<open>r\<close> of its render, and
  \<open>recognition\<close>, whether the browser has a speech recogniser at all (lines 15--19). A
  handler that calls setters also takes the stored state \<open>s\<close> and returns it updated.
\<close>

definition startListening :: "bool \<Rightarrow> nat \<Rightarrow> app_state \<Rightarrow> effects" where
  "startListening recognition k r =
     (if recognition \<and> \<not> isProcessing r \<and> isInterviewActive r
      then ([RecognitionStart k], [RecognitionOnResult k r])
      else ([], []))"

definition stopListening :: "bool \<Rightarrow> nat \<Rightarrow> call list" where
  "stopListening recognition k = (if recognition then [RecognitionStop k] else [])"

definition speak :: "bool \<Rightarrow> nat \<Rightarrow> app_state \<Rightarrow> json \<Rightarrow> effects" where
  "speak recognition k r txt =
     (if \<not> isInterviewActive r then ([], [])
      else (stopListening recognition k @ [SynthSpeak txt], [UtteranceOnEnd k r]))"

text \<open>\<^verbatim>\<open>utterance.onend\<close>, lines 51--57.\<close>

definition utterance_onend :: "nat \<Rightarrow> app_state \<Rightarrow> effects" where
  "utterance_onend k r =
     (if isInterviewActive r \<and> questionCount r < 5
      then ([SetTimeout 800], [TimeoutStartListening k r])
      else ([], []))"

definition systemPrompt :: string where
  "systemPrompt =
     ''\<newline>You are an AI interviewer.'' @
     ''\<newline>- Ask one unique question at a time.'' @
     ''\<newline>- Never repeat a previous question from this conversation.'' @
     ''\<newline>- After each answer, respond with a short acknowledgment, then the next question.'' @
     ''\<newline>- Stop after 5 total questions and thank the candidate politely.\<newline>''"

definition fallback :: string where
  "fallback = ''Sorry, I couldn't understand.''"

definition firstQuestion :: string where
  "firstQuestion = ''Hello! Let's start the interview. Tell me about yourself.''"

definition updatedConversation :: "app_state \<Rightarrow> string \<Rightarrow> message list" where
  "updatedConversation r msg = conversation r @ [\<lparr>role = User, mtext = JStr msg\<rparr>]"

definition request_contents :: "app_state \<Rightarrow> string \<Rightarrow> content list" where
  "request_contents r msg =
     \<lparr>crole = User, parts = [JStr systemPrompt]\<rparr> #
     map (\<lambda>m. \<lparr>crole = role m, parts = [mtext m]\<rparr>) (updatedConversation r msg)"

text \<open>
  Optional chaining: \<open>None\<close> is \<^verbatim>\<open>undefined\<close>. \<open>member_of k v\<close> is \<^verbatim>\<open>v?.k\<close> for the
  four keys of the path, which only an object can have; \<open>first_of v\<close> is \<^verbatim>\<open>v?.[0]\<close>,
  which an array, a string and an object with a member \<^verbatim>\<open>"0"\<close> have.
\<close>

fun member_of :: "string \<Rightarrow> json option \<Rightarrow> json option" where
  "member_of key (Some (JObj kvs)) = map_of kvs key"
| "member_of key _ = None"

fun first_of :: "json option \<Rightarrow> json option" where
  "first_of (Some (JArr xs)) = (case xs of [] \<Rightarrow> None | x # _ \<Rightarrow> Some x)"
| "first_of (Some (JStr cs)) = (case cs of [] \<Rightarrow> None | ch # _ \<Rightarrow> Some (JStr [ch]))"
| "first_of (Some (JObj kvs)) = map_of kvs ''0''"
| "first_of _ = None"

text \<open>What \<^verbatim>\<open>||\<close> takes for true: all but null, false, zero and the empty string.\<close>

fun truthy :: "json \<Rightarrow> bool" where
  "truthy JNull = False"
| "truthy (JBool b) = b"
| "truthy (JNum n) = (n \<noteq> 0)"
| "truthy (JStr cs) = (cs \<noteq> [])"
| "truthy (JArr xs) = True"
| "truthy (JObj kvs) = True"

text \<open>\<^verbatim>\<open>data?.candidates?.[0]?.content?.parts?.[0]?.text\<close>, line 98.\<close>

definition reply_text :: "json \<Rightarrow> json option" where
  "reply_text data =
     member_of ''text'' (first_of (member_of ''parts'' (member_of ''content''
       (first_of (member_of ''candidates'' (Some data))))))"

definition aiReply_of :: "json \<Rightarrow> json" where
  "aiReply_of data =
     (case reply_text data of
        None \<Rightarrow> JStr fallback
      | Some v \<Rightarrow> if truthy v then v else JStr fallback)"

text \<open>
  \<^verbatim>\<open>sendToGemini\<close> up to its first \<^verbatim>\<open>await\<close> (lines 61--94): the guard, the busy flag
  and the request.
\<close>

definition sendToGemini ::
  "nat \<Rightarrow> app_state \<Rightarrow> string \<Rightarrow> app_state \<Rightarrow> app_state \<times> effects" where
  "sendToGemini k r msg s =
     (if isProcessing r \<or> \<not> isInterviewActive r then (s, [], [])
      else (s\<lparr>isProcessing := True\<rparr>, [Fetch (request_contents r msg)], [FetchReply k r msg]))"

text \<open>
  What the two awaits of the \<^verbatim>\<open>try\<close> block yield: \<^verbatim>\<open>fetch\<close> or \<^verbatim>\<open>res.json()\<close>
  throws, or the body parses to a value.
\<close>

datatype response = Thrown | Parsed json

text \<open>
  \<^verbatim>\<open>sendToGemini\<close> from the awaits on (lines 96--113), in the closure that sent \<open>msg\<close>,
  on the state \<open>s\<close> stored when the reply comes. \<^verbatim>\<open>setQuestionCount\<close> takes an updater,
  so it counts from the stored value; \<^verbatim>\<open>setConversation\<close> takes the list built from
  the closure's \<^verbatim>\<open>updatedConversation\<close>.
\<close>

definition sendToGemini_reply ::
  "bool \<Rightarrow> nat \<Rightarrow> app_state \<Rightarrow> string \<Rightarrow> response \<Rightarrow> app_state \<Rightarrow> app_state \<times> effects" where
  "sendToGemini_reply recognition k r msg resp s =
     (case resp of
        Thrown \<Rightarrow> (s\<lparr>isProcessing := False\<rparr>, [ConsoleError], [])
      | Parsed data \<Rightarrow>
          (let aiReply = aiReply_of data;
               s1 = s\<lparr>conversation := updatedConversation r msg @ [\<lparr>role = Model, mtext = aiReply\<rparr>],
                      aiText := aiReply,
                      questionCount := questionCount s + 1\<rparr>
           in (s1\<lparr>isProcessing := False\<rparr>, speak recognition k r aiReply)))"

text \<open>\<^verbatim>\<open>recognition.onresult\<close>, lines 25--30, with the recognised transcript.\<close>

definition recognition_onresult ::
  "bool \<Rightarrow> nat \<Rightarrow> app_state \<Rightarrow> string \<Rightarrow> app_state \<Rightarrow> app_state \<times> effects" where
  "recognition_onresult recognition k r heard s =
     (case sendToGemini k r heard (s\<lparr>userText := heard\<rparr>) of
        (s', made, callbacks) \<Rightarrow> (s', stopListening recognition k @ made, callbacks))"

definition startInterview ::
  "bool \<Rightarrow> nat \<Rightarrow> app_state \<Rightarrow> app_state \<Rightarrow> app_state \<times> effects" where
  "startInterview recognition k r s =
     (s\<lparr>isInterviewActive := True, conversation := [], questionCount := 1,
        aiText := JStr firstQuestion\<rparr>,
      speak recognition k r (JStr firstQuestion))"

definition stopInterview :: "bool \<Rightarrow> nat \<Rightarrow> app_state \<Rightarrow> app_state \<times> effects" where
  "stopInterview recognition k s =
     (s\<lparr>isInterviewActive := False, questionCount := 5,
        aiText := JStr ''Interview ended. Thank you!''\<rparr>,
      stopListening recognition k @ [SynthCancel], [])"

section \<open>The page as an event-driven machine\<close>

text \<open>
  A configuration is the stored state, the number of the latest render, the callbacks
  the browser still holds, and the calls made so far.

  The browser obeys at once: \<^verbatim>\<open>stop()\<close> on a recogniser drops the result it might
  still deliver, and \<^verbatim>\<open>speechSynthesis.cancel()\<close> discards every utterance with its
  \<^verbatim>\<open>onend\<close>. Neither reaches a timer or a request, for which the code keeps no timer
  id and no abort signal.
\<close>

record config =
  store :: app_state
  render :: nat
  pending :: "callback list"
  calls :: "call list"

definition initial_config :: config where
  "initial_config = \<lparr>store = initial_state, render = 0, pending = [], calls = []\<rparr>"

fun is_utterance :: "callback \<Rightarrow> bool" where
  "is_utterance (UtteranceOnEnd k r) = True"
| "is_utterance _ = False"

fun listens :: "nat \<Rightarrow> callback \<Rightarrow> bool" where
  "listens k (RecognitionOnResult k' r) = (k' = k)"
| "listens k _ = False"

fun settle :: "callback list \<Rightarrow> call \<Rightarrow> callback list" where
  "settle cbs (RecognitionStop k) = filter (\<lambda>cb. \<not> listens k cb) cbs"
| "settle cbs SynthCancel = filter (\<lambda>cb. \<not> is_utterance cb) cbs"
| "settle cbs _ = cbs"

text \<open>
  \<open>commit c setters out\<close> takes the outcome of a handler into the configuration. After a
  handler that has called setters the page renders again. (React skips that render when
  every setter was given the value already stored; the render the model numbers then
  stands for the one kept: the same constants, and a recogniser that was never started.)
\<close>

definition commit :: "config \<Rightarrow> bool \<Rightarrow> app_state \<times> effects \<Rightarrow> config" where
  "commit c setters out =
     (case out of (s', made, callbacks) \<Rightarrow>
        \<lparr>store = s',
         render = (if setters then Suc (render c) else render c),
         pending = foldl settle (pending c) made @ callbacks,
         calls = calls c @ made\<rparr>)"

text \<open>
  A click runs the handler of the latest render, whose constants are the stored state. A
  browser event runs a callback the browser holds, once, in the closure that made it.
\<close>

datatype event =
    ClickStart
  | ClickStop
  | UtteranceEnded nat app_state
  | TimeoutElapsed nat app_state
  | Recognized nat app_state string
  | Replied nat app_state string response

definition fire :: "config \<Rightarrow> callback \<Rightarrow> bool \<Rightarrow> app_state \<times> effects \<Rightarrow> config option" where
  "fire c cb setters out =
     (if cb \<in> set (pending c)
      then Some (commit (c\<lparr>pending := remove1 cb (pending c)\<rparr>) setters out)
      else None)"

fun step :: "bool \<Rightarrow> config \<Rightarrow> event \<Rightarrow> config option" where
  "step recognition c ClickStart =
     Some (commit c True (startInterview recognition (render c) (store c) (store c)))"
| "step recognition c ClickStop =
     Some (commit c True (stopInterview recognition (render c) (store c)))"
| "step recognition c (UtteranceEnded k r) =
     fire c (UtteranceOnEnd k r) False (store c, utterance_onend k r)"
| "step recognition c (TimeoutElapsed k r) =
     fire c (TimeoutStartListening k r) False (store c, startListening recognition k r)"
| "step recognition c (Recognized k r heard) =
     fire c (RecognitionOnResult k r) True (recognition_onresult recognition k r heard (store c))"
| "step recognition c (Replied k r msg resp) =
     fire c (FetchReply k r msg) True (sendToGemini_reply recognition k r msg resp (store c))"

fun run :: "bool \<Rightarrow> config \<Rightarrow> event list \<Rightarrow> config option" where
  "run recognition c [] = Some c"
| "run recognition c (e # es) =
     (case step recognition c e of None \<Rightarrow> None | Some c' \<Rightarrow> run recognition c' es)"

section \<open>Scenarios and the invariants of the held callbacks\<close>

text \<open>
  The state stored after the first click on Start, which is also the constant state of
  the renders that follow it until the next change.
\<close>

definition first_render :: app_state where
  "first_render =
     \<lparr>conversation = [], userText = [], aiText = JStr firstQuestion, questionCount = 1,
      isProcessing = False, isInterviewActive = True\<rparr>"

text \<open>A reply body of the expected shape, \<^verbatim>\<open>{candidates:[{content:{parts:[{text: t}]}}]}\<close>.\<close>

definition payload :: "string \<Rightarrow> json" where
  "payload t =
     JObj [(''candidates'', JArr [JObj [(''content'',
       JObj [(''parts'', JArr [JObj [(''text'', JStr t)]])])]])]"

text \<open>
  One turn as the browser delivers it to the closure \<open>k\<close>, \<open>r\<close>: the utterance ends, the
  pause of 800 ms elapses, the answer \<open>msg\<close> is recognised, the request settles with
  \<open>resp\<close>.
\<close>

definition turn :: "nat \<Rightarrow> app_state \<Rightarrow> string \<Rightarrow> response \<Rightarrow> event list" where
  "turn k r msg resp =
     [UtteranceEnded k r, TimeoutElapsed k r, Recognized k r msg, Replied k r msg resp]"

text \<open>A body that parses and has no reply text, as an error status sends it.\<close>

definition error_body :: json where
  "error_body = JObj [(''error'', JObj [(''code'', JNum 429)])]"

text \<open>
  The configuration after Start, Start, the end of the opening question, the pause, and
  the answer \<^verbatim>\<open>a\<close>: the request is out and the reply is awaited.
\<close>

definition awaiting_reply :: config where
  "awaiting_reply =
     \<lparr>store = first_render\<lparr>userText := ''a'', isProcessing := True\<rparr>,
      render = 3,
      pending = [FetchReply 1 first_render ''a''],
      calls =
        [RecognitionStop 1, SynthSpeak (JStr firstQuestion), SetTimeout 800,
         RecognitionStart 1, RecognitionStop 1,
         Fetch (request_contents first_render ''a'')]\<rparr>"

text \<open>
  What the guards of the handlers establish about the closure of every callback they
  leave with the browser.
\<close>

fun ready :: "bool \<Rightarrow> callback \<Rightarrow> bool" where
  "ready recognition (UtteranceOnEnd k r) = isInterviewActive r"
| "ready recognition (TimeoutStartListening k r) = (isInterviewActive r \<and> questionCount r < 5)"
| "ready recognition (RecognitionOnResult k r) =
     (recognition \<and> \<not> isProcessing r \<and> isInterviewActive r)"
| "ready recognition (FetchReply k r msg) =
     (recognition \<and> \<not> isProcessing r \<and> isInterviewActive r)"

text \<open>The render a callback was made in.\<close>

fun made_in :: "callback \<Rightarrow> nat" where
  "made_in (UtteranceOnEnd k r) = k"
| "made_in (TimeoutStartListening k r) = k"
| "made_in (RecognitionOnResult k r) = k"
| "made_in (FetchReply k r msg) = k"

definition older :: "config \<Rightarrow> bool" where
  "older c = list_all (\<lambda>cb. made_in cb < render c) (pending c)"

section \<open>Facts about the handlers\<close>

lemma reply_text_payload: "reply_text (payload t) = Some (JStr t)"
  by (simp add: reply_text_def payload_def)

lemma aiReply_of_payload: "aiReply_of (payload t) = (if t = [] then JStr fallback else JStr t)"
  by (simp add: aiReply_of_def reply_text_payload)

lemma aiReply_of_unusable:
  assumes "\<not> (\<exists>v. reply_text data = Some v \<and> truthy v)"
  shows "aiReply_of data = JStr fallback"
  using assms by (cases "reply_text data") (auto simp: aiReply_of_def)

text \<open>
  What Stop does by itself, in any render and on any stored state: the three setters, and
  \<^verbatim>\<open>stop()\<close> on the recogniser of the render that was clicked, then \<^verbatim>\<open>cancel()\<close>.
\<close>

lemma stopInterview_effects:
  "stopInterview recognition k s =
     (s\<lparr>isInterviewActive := False, questionCount := 5,
        aiText := JStr ''Interview ended. Thank you!''\<rparr>,
      (if recognition then [RecognitionStop k] else []) @ [SynthCancel], [])"
  by (simp add: stopInterview_def stopListening_def)

text \<open>
  The two ways a request can fail. A thrown error is logged and clears the busy flag, and
  that is all. A body with no truthy value at \<^verbatim>\<open>candidates[0].content.parts[0].text\<close>
  is recorded, displayed and (in an active closure) spoken as the fallback.
\<close>

lemma sendToGemini_reply_failed:
  "sendToGemini_reply recognition k r msg Thrown s =
     (s\<lparr>isProcessing := False\<rparr>, [ConsoleError], []) \<and>
   (\<not> (\<exists>v. reply_text data = Some v \<and> truthy v) \<longrightarrow>
      sendToGemini_reply recognition k r msg (Parsed data) s =
        (s\<lparr>conversation :=
             updatedConversation r msg @
             [\<lparr>role = Model, mtext = JStr ''Sorry, I couldn't understand.''\<rparr>],
           aiText := JStr ''Sorry, I couldn't understand.'',
           questionCount := questionCount s + 1,
           isProcessing := False\<rparr>,
         if isInterviewActive r
         then (stopListening recognition k @
                 [SynthSpeak (JStr ''Sorry, I couldn't understand.'')],
               [UtteranceOnEnd k r])
         else ([], [])))"
proof (intro conjI impI)
  show "sendToGemini_reply recognition k r msg Thrown s =
      (s\<lparr>isProcessing := False\<rparr>, [ConsoleError], [])"
    by (simp add: sendToGemini_reply_def)
next
  assume "\<not> (\<exists>v. reply_text data = Some v \<and> truthy v)"
  then have "aiReply_of data = JStr fallback"
    by (rule aiReply_of_unusable)
  then show "sendToGemini_reply recognition k r msg (Parsed data) s =
        (s\<lparr>conversation :=
             updatedConversation r msg @
             [\<lparr>role = Model, mtext = JStr ''Sorry, I couldn't understand.''\<rparr>],
           aiText := JStr ''Sorry, I couldn't understand.'',
           questionCount := questionCount s + 1,
           isProcessing := False\<rparr>,
         if isInterviewActive r
         then (stopListening recognition k @
                 [SynthSpeak (JStr ''Sorry, I couldn't understand.'')],
               [UtteranceOnEnd k r])
         else ([], []))"
    by (simp add: sendToGemini_reply_def speak_def fallback_def Let_def)
qed

text \<open>
  A reply with the text \<^verbatim>\<open>Next question?\<close> is stored as the last turn, after the
  transcript of the request, which is the closure's \<^verbatim>\<open>updatedConversation\<close>; the
  stored counter grows by 1.
\<close>

lemma sendToGemini_reply_next_question:
  "conversation (fst (sendToGemini_reply recognition k r msg (Parsed (payload ''Next question?'')) s)) =
     updatedConversation r msg @ [\<lparr>role = Model, mtext = JStr ''Next question?''\<rparr>] \<and>
   length (filter (\<lambda>m. role m = Model)
     (conversation (fst (sendToGemini_reply recognition k r msg (Parsed (payload ''Next question?'')) s)))) =
     Suc (length (filter (\<lambda>m. role m = Model) (conversation r))) \<and>
   aiText (fst (sendToGemini_reply recognition k r msg (Parsed (payload ''Next question?'')) s)) =
     JStr ''Next question?'' \<and>
   questionCount (fst (sendToGemini_reply recognition k r msg (Parsed (payload ''Next question?'')) s)) =
     questionCount s + 1"
  by (simp add: sendToGemini_reply_def aiReply_of_payload updatedConversation_def Let_def)

section \<open>Facts about the machine\<close>

lemma set_settle: "set (settle cbs made) \<subseteq> set cbs"
  by (cases made) auto

lemma set_foldl_settle: "set (foldl settle cbs made) \<subseteq> set cbs"
proof (induction made arbitrary: cbs)
  case Nil
  show ?case by simp
next
  case (Cons x xs)
  have "set (foldl settle (settle cbs x) xs) \<subseteq> set (settle cbs x)"
    by (rule Cons.IH)
  also have "\<dots> \<subseteq> set cbs"
    by (rule set_settle)
  finally show ?case by simp
qed

lemma pending_commit:
  "set (pending (commit c setters out)) \<subseteq> set (pending c) \<union> set (snd (snd out))"
proof -
  obtain s' made callbacks where out: "out = (s', made, callbacks)"
    by (cases out) auto
  show ?thesis
    using set_foldl_settle [of "pending c" made] by (auto simp: out commit_def)
qed

lemma render_commit:
  "render (commit c setters out) = (if setters then Suc (render c) else render c)"
  by (cases out) (simp add: commit_def)

lemma fire_SomeD:
  assumes "fire c cb setters out = Some c'"
  shows "cb \<in> set (pending c)"
    and "c' = commit (c\<lparr>pending := remove1 cb (pending c)\<rparr>) setters out"
  using assms by (auto simp: fire_def split: if_splits)

subsection \<open>The closures of the held callbacks passed their guards\<close>

lemma ready_commit:
  assumes "list_all (ready recognition) (pending c)"
    and "list_all (ready recognition) (snd (snd out))"
  shows "list_all (ready recognition) (pending (commit c setters out))"
  using assms pending_commit [of c setters out] by (auto simp: list_all_iff)

lemma ready_fire:
  assumes inv: "list_all (ready recognition) (pending c)"
    and fired: "fire c cb setters out = Some c'"
    and made: "ready recognition cb \<Longrightarrow> list_all (ready recognition) (snd (snd out))"
  shows "list_all (ready recognition) (pending c')"
proof -
  note mem = fire_SomeD(1) [OF fired] and c' = fire_SomeD(2) [OF fired]
  from inv mem have "ready recognition cb"
    unfolding list_all_iff by (rule bspec)
  then have new: "list_all (ready recognition) (snd (snd out))"
    by (rule made)
  have "set (remove1 cb (pending c)) \<subseteq> set (pending c)"
    by (rule set_remove1_subset)
  with inv have "list_all (ready recognition) (pending (c\<lparr>pending := remove1 cb (pending c)\<rparr>))"
    by (auto simp: list_all_iff)
  then show ?thesis
    unfolding c' using new by (rule ready_commit)
qed

lemma ready_step:
  assumes inv: "list_all (ready recognition) (pending c)"
    and st: "step recognition c e = Some c'"
  shows "list_all (ready recognition) (pending c')"
proof (cases e)
  case ClickStart
  have "list_all (ready recognition)
      (snd (snd (startInterview recognition (render c) (store c) (store c))))"
    by (simp add: startInterview_def speak_def)
  with inv have "list_all (ready recognition)
      (pending (commit c True (startInterview recognition (render c) (store c) (store c))))"
    by (rule ready_commit)
  with st ClickStart show ?thesis by simp
next
  case ClickStop
  have "list_all (ready recognition) (snd (snd (stopInterview recognition (render c) (store c))))"
    by (simp add: stopInterview_def)
  with inv have "list_all (ready recognition)
      (pending (commit c True (stopInterview recognition (render c) (store c))))"
    by (rule ready_commit)
  with st ClickStop show ?thesis by simp
next
  case (UtteranceEnded k r)
  with st have "fire c (UtteranceOnEnd k r) False (store c, utterance_onend k r) = Some c'"
    by simp
  with inv show ?thesis
    by (rule ready_fire) (simp add: utterance_onend_def)
next
  case (TimeoutElapsed k r)
  with st have "fire c (TimeoutStartListening k r) False
      (store c, startListening recognition k r) = Some c'"
    by simp
  with inv show ?thesis
    by (rule ready_fire) (simp add: startListening_def)
next
  case (Recognized k r heard)
  with st have "fire c (RecognitionOnResult k r) True
      (recognition_onresult recognition k r heard (store c)) = Some c'"
    by simp
  with inv show ?thesis
    by (rule ready_fire) (simp add: recognition_onresult_def sendToGemini_def)
next
  case (Replied k r msg resp)
  with st have "fire c (FetchReply k r msg) True
      (sendToGemini_reply recognition k r msg resp (store c)) = Some c'"
    by simp
  with inv show ?thesis
    by (rule ready_fire)
      (simp add: sendToGemini_reply_def speak_def Let_def split: response.splits)
qed

lemma ready_run:
  assumes "list_all (ready recognition) (pending c)"
    and "run recognition c es = Some c'"
  shows "list_all (ready recognition) (pending c')"
  using assms
proof (induction es arbitrary: c)
  case Nil
  then show ?case by simp
next
  case (Cons e es)
  from Cons.prems(2) obtain c1 where c1: "step recognition c e = Some c1"
    and rest: "run recognition c1 es = Some c'"
    by (auto split: option.splits)
  from Cons.prems(1) c1 have "list_all (ready recognition) (pending c1)"
    by (rule ready_step)
  then show ?case
    using rest by (rule Cons.IH)
qed

text \<open>
  Every answer the page recognises is sent: a recogniser is only started by the closure
  whose guard found the session active and not busy, and the same closure handles the
  result, so the guard of \<^verbatim>\<open>sendToGemini\<close> passes and one request leaves, carrying the
  system prompt and then the closure's transcript with the answer last.
\<close>

lemma recognized_sends_one_request:
  assumes "run recognition initial_config es = Some c"
    and "step recognition c (Recognized k r heard) = Some c'"
  shows "calls c' = calls c @ [RecognitionStop k, Fetch (request_contents r heard)]"
proof -
  have "list_all (ready recognition) (pending initial_config)"
    by (simp add: initial_config_def)
  then have inv: "list_all (ready recognition) (pending c)"
    using assms(1) by (rule ready_run)
  from assms(2) have fired: "fire c (RecognitionOnResult k r) True
      (recognition_onresult recognition k r heard (store c)) = Some c'"
    by simp
  note mem = fire_SomeD(1) [OF fired] and c' = fire_SomeD(2) [OF fired]
  from inv mem have "ready recognition (RecognitionOnResult k r)"
    unfolding list_all_iff by (rule bspec)
  then show ?thesis
    by (simp add: c' commit_def recognition_onresult_def sendToGemini_def stopListening_def)
qed

subsection \<open>Every held callback is older than the latest render\<close>

lemma older_commit:
  assumes inv: "older c"
    and made: "list_all (\<lambda>cb. made_in cb < (if setters then Suc (render c) else render c))
           (snd (snd out))"
  shows "older (commit c setters out)"
proof -
  let ?n = "if setters then Suc (render c) else render c"
  have "made_in cb < ?n" if "cb \<in> set (pending (commit c setters out))" for cb
  proof -
    from that pending_commit [of c setters out]
    consider "cb \<in> set (pending c)" | "cb \<in> set (snd (snd out))"
      by blast
    then show ?thesis
    proof cases
      case 1
      with inv have "made_in cb < render c"
        by (simp add: older_def list_all_iff)
      then show ?thesis by simp
    next
      case 2
      with made show ?thesis
        by (simp add: list_all_iff)
    qed
  qed
  then show ?thesis
    by (simp add: older_def list_all_iff render_commit)
qed

lemma older_fire:
  assumes inv: "older c"
    and fired: "fire c cb setters out = Some c'"
    and made: "list_all (\<lambda>new. made_in new = made_in cb) (snd (snd out))"
  shows "older c'"
proof -
  note mem = fire_SomeD(1) [OF fired] and c' = fire_SomeD(2) [OF fired]
  from inv mem have age: "made_in cb < render c"
    by (auto simp: older_def list_all_iff)
  have "set (remove1 cb (pending c)) \<subseteq> set (pending c)"
    by (rule set_remove1_subset)
  with inv have "older (c\<lparr>pending := remove1 cb (pending c)\<rparr>)"
    by (auto simp: older_def list_all_iff)
  moreover have "list_all (\<lambda>new. made_in new <
      (if setters then Suc (render (c\<lparr>pending := remove1 cb (pending c)\<rparr>))
       else render (c\<lparr>pending := remove1 cb (pending c)\<rparr>))) (snd (snd out))"
    using made age by (auto simp: list_all_iff)
  ultimately show ?thesis
    unfolding c' by (rule older_commit)
qed

lemma older_step:
  assumes inv: "older c"
    and st: "step recognition c e = Some c'"
  shows "older c'"
proof (cases e)
  case ClickStart
  have "list_all (\<lambda>cb. made_in cb < (if True then Suc (render c) else render c))
      (snd (snd (startInterview recognition (render c) (store c) (store c))))"
    by (simp add: startInterview_def speak_def)
  with inv have "older (commit c True (startInterview recognition (render c) (store c) (store c)))"
    by (rule older_commit)
  with st ClickStart show ?thesis by simp
next
  case ClickStop
  have "list_all (\<lambda>cb. made_in cb < (if True then Suc (render c) else render c))
      (snd (snd (stopInterview recognition (render c) (store c))))"
    by (simp add: stopInterview_def)
  with inv have "older (commit c True (stopInterview recognition (render c) (store c)))"
    by (rule older_commit)
  with st ClickStop show ?thesis by simp
next
  case (UtteranceEnded k r)
  with st have "fire c (UtteranceOnEnd k r) False (store c, utterance_onend k r) = Some c'"
    by simp
  with inv show ?thesis
    by (rule older_fire) (simp add: utterance_onend_def)
next
  case (TimeoutElapsed k r)
  with st have "fire c (TimeoutStartListening k r) False
      (store c, startListening recognition k r) = Some c'"
    by simp
  with inv show ?thesis
    by (rule older_fire) (simp add: startListening_def)
next
  case (Recognized k r heard)
  with st have "fire c (RecognitionOnResult k r) True
      (recognition_onresult recognition k r heard (store c)) = Some c'"
    by simp
  with inv show ?thesis
    by (rule older_fire) (simp add: recognition_onresult_def sendToGemini_def)
next
  case (Replied k r msg resp)
  with st have "fire c (FetchReply k r msg) True
      (sendToGemini_reply recognition k r msg resp (store c)) = Some c'"
    by simp
  with inv show ?thesis
    by (rule older_fire)
      (simp add: sendToGemini_reply_def speak_def Let_def split: response.splits)
qed

lemma older_run:
  assumes "older c" and "run recognition c es = Some c'"
  shows "older c'"
  using assms
proof (induction es arbitrary: c)
  case Nil
  then show ?case by simp
next
  case (Cons e es)
  from Cons.prems(2) obtain c1 where c1: "step recognition c e = Some c1"
    and rest: "run recognition c1 es = Some c'"
    by (auto split: option.splits)
  from Cons.prems(1) c1 have "older c1"
    by (rule older_step)
  then show ?case
    using rest by (rule Cons.IH)
qed

lemma listens_made_in: "listens k cb \<Longrightarrow> made_in cb = k"
  by (cases cb) auto

text \<open>
  Stop reaches no recogniser that is listening: its \<^verbatim>\<open>stop()\<close> goes to the recogniser
  of the render that was clicked, and every recogniser that listens belongs to an older
  render. Of the callbacks the browser holds, Stop removes the utterances only.
\<close>

lemma stop_removes_utterances_only:
  assumes "run recognition initial_config es = Some c"
    and "step recognition c ClickStop = Some c'"
  shows "pending c' = filter (\<lambda>cb. \<not> is_utterance cb) (pending c)"
proof -
  have "older initial_config"
    by (simp add: older_def initial_config_def)
  then have "older c"
    using assms(1) by (rule older_run)
  then have "\<not> listens (render c) cb" if "cb \<in> set (pending c)" for cb
    using that listens_made_in [of "render c" cb] by (auto simp: older_def list_all_iff)
  then have "filter (\<lambda>cb. \<not> listens (render c) cb) (pending c) = pending c"
    by (simp add: filter_id_conv)
  with assms(2) show ?thesis
    by (auto simp: commit_def stopInterview_def stopListening_def)
qed

text \<open>
  The loop of a session: when an utterance of a closure that is active, not busy and
  below 5 ends, the pause of 800 ms is set, and when the pause ends the recogniser of
  that closure starts and waits for an answer.
\<close>

lemma utterance_end_rearms_listening:
  assumes held: "UtteranceOnEnd k r \<in> set (pending c1)"
    and rec: recognition
    and idle: "\<not> isProcessing r"
    and active: "isInterviewActive r"
    and below: "questionCount r < 5"
  shows "\<exists>c3. run recognition c1 [UtteranceEnded k r, TimeoutElapsed k r] = Some c3 \<and>
            store c3 = store c1 \<and>
            calls c3 = calls c1 @ [SetTimeout 800, RecognitionStart k] \<and>
            RecognitionOnResult k r \<in> set (pending c3)"
proof -
  define c2 where "c2 = commit (c1\<lparr>pending := remove1 (UtteranceOnEnd k r) (pending c1)\<rparr>)
      False (store c1, utterance_onend k r)"
  define c3 where "c3 = commit (c2\<lparr>pending := remove1 (TimeoutStartListening k r) (pending c2)\<rparr>)
      False (store c2, startListening recognition k r)"
  from held have s1: "step recognition c1 (UtteranceEnded k r) = Some c2"
    by (simp add: fire_def c2_def)
  from active below have c2: "store c2 = store c1" "calls c2 = calls c1 @ [SetTimeout 800]"
    "TimeoutStartListening k r \<in> set (pending c2)"
    by (simp_all add: c2_def commit_def utterance_onend_def)
  from c2(3) have s2: "step recognition c2 (TimeoutElapsed k r) = Some c3"
    by (simp add: fire_def c3_def)
  from rec idle active have c3: "store c3 = store c2" "calls c3 = calls c2 @ [RecognitionStart k]"
    "RecognitionOnResult k r \<in> set (pending c3)"
    by (simp_all add: c3_def commit_def startListening_def)
  from s1 s2 have "run recognition c1 [UtteranceEnded k r, TimeoutElapsed k r] = Some c3"
    by simp
  with c2 c3 show ?thesis
    by simp
qed

section \<open>The claims\<close>

text \<open>
  C1: the turn counter never decreases from Start until the session has ended, and never
  exceeds 5 before the session has ended.

  The code does not keep the bound. The check \<^verbatim>\<open>questionCount < 5\<close> of line 52 reads the
  constant of the render whose \<^verbatim>\<open>speak\<close> made the utterance, and every later callback
  of the session is made by that same closure, so the check sees 1 for ever. Run: Start
  (nothing is spoken, see C4), Start again, then five answered turns. The stored counter
  is then 6, the session is active, and the page is listening for a sixth answer.
\<close>

theorem counter_passes_five_while_active:
  "map_option store
     (run True initial_config
        ([ClickStart, ClickStart] @
         concat (replicate 5 (turn 1 first_render ''a'' (Parsed (payload ''q'')))) @
         [UtteranceEnded 1 first_render, TimeoutElapsed 1 first_render])) =
   Some \<lparr>conversation = [\<lparr>role = User, mtext = JStr ''a''\<rparr>, \<lparr>role = Model, mtext = JStr ''q''\<rparr>],
         userText = ''a'', aiText = JStr ''q'', questionCount = 6,
         isProcessing = False, isInterviewActive = True\<rparr> \<and>
   map_option pending
     (run True initial_config
        ([ClickStart, ClickStart] @
         concat (replicate 5 (turn 1 first_render ''a'' (Parsed (payload ''q'')))) @
         [UtteranceEnded 1 first_render, TimeoutElapsed 1 first_render])) =
   Some [RecognitionOnResult 1 first_render]"
  by code_simp

text \<open>
  C2: on a malformed or failing reply, a thrown transport or parse error included, the
  request step does not crash, records and displays \<^verbatim>\<open>Sorry, I couldn't understand.\<close>,
  adds 1 to the turn counter and lets the session go on to the next turn.

  This holds for a reply that parses and has no usable text. A thrown error goes to the
  \<^verbatim>\<open>catch\<close> of line 109, which only logs: in the run below the request throws, and
  afterwards the transcript is empty, the opening question is still displayed, the
  counter is still 1 and the browser holds no callback that could start a next turn.
\<close>

theorem thrown_reply_records_no_fallback:
  "run True initial_config
     [ClickStart, ClickStart, UtteranceEnded 1 first_render, TimeoutElapsed 1 first_render,
      Recognized 1 first_render ''a'', Replied 1 first_render ''a'' Thrown] =
   Some \<lparr>store =
           \<lparr>conversation = [], userText = ''a'',
            aiText = JStr ''Hello! Let's start the interview. Tell me about yourself.'',
            questionCount = 1, isProcessing = False, isInterviewActive = True\<rparr>,
         render = 4,
         pending = [],
         calls =
           [RecognitionStop 1,
            SynthSpeak (JStr ''Hello! Let's start the interview. Tell me about yourself.''),
            SetTimeout 800, RecognitionStart 1, RecognitionStop 1,
            Fetch (request_contents first_render ''a''), ConsoleError]\<rparr>"
  by code_simp

text \<open>
  C2, as the code has it: a thrown error is logged and clears the busy flag, and nothing
  else changes, nothing is spoken and no callback is left. A reply that parses and has no
  truthy value at \<^verbatim>\<open>candidates[0].content.parts[0].text\<close> is recorded and displayed as
  \<^verbatim>\<open>Sorry, I couldn't understand.\<close>, the counter grows by 1, the busy flag is cleared,
  and when the closure is active the fallback is spoken. In a run of the page the session
  then goes on to the next turn when the closure's counter is below 5: the end of the
  fallback sets the pause of 800 ms, and the end of the pause starts the closure's
  recogniser, which waits for the next answer. Both cases return to the caller.
\<close>

theorem failed_reply_handling:
  "sendToGemini_reply recognition k r msg Thrown s =
     (s\<lparr>isProcessing := False\<rparr>, [ConsoleError], []) \<and>
   (\<not> (\<exists>v. reply_text data = Some v \<and> truthy v) \<longrightarrow>
      sendToGemini_reply recognition k r msg (Parsed data) s =
        (s\<lparr>conversation :=
             updatedConversation r msg @
             [\<lparr>role = Model, mtext = JStr ''Sorry, I couldn't understand.''\<rparr>],
           aiText := JStr ''Sorry, I couldn't understand.'',
           questionCount := questionCount s + 1,
           isProcessing := False\<rparr>,
         if isInterviewActive r
         then (stopListening recognition k @
                 [SynthSpeak (JStr ''Sorry, I couldn't understand.'')],
               [UtteranceOnEnd k r])
         else ([], []))) \<and>
   (\<not> (\<exists>v. reply_text data = Some v \<and> truthy v) \<and>
    run recognition initial_config es = Some c \<and>
    step recognition c (Replied k r msg (Parsed data)) = Some c1 \<and>
    questionCount r < 5 \<longrightarrow>
      (\<exists>c3. run recognition c1 [UtteranceEnded k r, TimeoutElapsed k r] = Some c3 \<and>
            store c3 = store c1 \<and>
            calls c3 = calls c1 @ [SetTimeout 800, RecognitionStart k] \<and>
            RecognitionOnResult k r \<in> set (pending c3)))"
proof (intro conjI impI)
  show "sendToGemini_reply recognition k r msg Thrown s =
      (s\<lparr>isProcessing := False\<rparr>, [ConsoleError], [])"
    using sendToGemini_reply_failed [of recognition k r msg s data] by (rule conjunct1)
next
  assume "\<not> (\<exists>v. reply_text data = Some v \<and> truthy v)"
  with sendToGemini_reply_failed [of recognition k r msg s data]
  show "sendToGemini_reply recognition k r msg (Parsed data) s =
        (s\<lparr>conversation :=
             updatedConversation r msg @
             [\<lparr>role = Model, mtext = JStr ''Sorry, I couldn't understand.''\<rparr>],
           aiText := JStr ''Sorry, I couldn't understand.'',
           questionCount := questionCount s + 1,
           isProcessing := False\<rparr>,
         if isInterviewActive r
         then (stopListening recognition k @
                 [SynthSpeak (JStr ''Sorry, I couldn't understand.'')],
               [UtteranceOnEnd k r])
         else ([], []))"
    by blast
next
  assume asm: "\<not> (\<exists>v. reply_text data = Some v \<and> truthy v) \<and>
    run recognition initial_config es = Some c \<and>
    step recognition c (Replied k r msg (Parsed data)) = Some c1 \<and>
    questionCount r < 5"
  then have unusable: "\<not> (\<exists>v. reply_text data = Some v \<and> truthy v)"
    and reached: "run recognition initial_config es = Some c"
    and replied: "step recognition c (Replied k r msg (Parsed data)) = Some c1"
    and below: "questionCount r < 5"
    by simp_all
  have "list_all (ready recognition) (pending initial_config)"
    by (simp add: initial_config_def)
  then have inv: "list_all (ready recognition) (pending c)"
    using reached by (rule ready_run)
  from replied have fired: "fire c (FetchReply k r msg) True
      (sendToGemini_reply recognition k r msg (Parsed data) (store c)) = Some c1"
    by simp
  note mem = fire_SomeD(1) [OF fired] and c1 = fire_SomeD(2) [OF fired]
  from inv mem have "ready recognition (FetchReply k r msg)"
    unfolding list_all_iff by (rule bspec)
  then have rec: recognition and idle: "\<not> isProcessing r" and active: "isInterviewActive r"
    by simp_all
  from unusable sendToGemini_reply_failed [of recognition k r msg "store c" data] active
  have "snd (snd (sendToGemini_reply recognition k r msg (Parsed data) (store c))) =
      [UtteranceOnEnd k r]"
    by simp
  then have "UtteranceOnEnd k r \<in> set (pending c1)"
    unfolding c1 by (cases "sendToGemini_reply recognition k r msg (Parsed data) (store c)")
      (simp add: commit_def)
  then show "\<exists>c3. run recognition c1 [UtteranceEnded k r, TimeoutElapsed k r] = Some c3 \<and>
            store c3 = store c1 \<and>
            calls c3 = calls c1 @ [SetTimeout 800, RecognitionStart k] \<and>
            RecognitionOnResult k r \<in> set (pending c3)"
    using rec idle active below by (rule utterance_end_rearms_listening)
qed

theorem failed_reply_handling_witness:
  "reply_text error_body = None \<and>
   run True initial_config
     [ClickStart, ClickStart, UtteranceEnded 1 first_render, TimeoutElapsed 1 first_render,
      Recognized 1 first_render ''a''] = Some awaiting_reply \<and>
   step True awaiting_reply (Replied 1 first_render ''a'' (Parsed error_body)) =
     Some \<lparr>store =
             \<lparr>conversation =
                [\<lparr>role = User, mtext = JStr ''a''\<rparr>,
                 \<lparr>role = Model, mtext = JStr ''Sorry, I couldn't understand.''\<rparr>],
              userText = ''a'', aiText = JStr ''Sorry, I couldn't understand.'',
              questionCount = 2, isProcessing = False, isInterviewActive = True\<rparr>,
           render = 4,
           pending = [UtteranceOnEnd 1 first_render],
           calls = calls awaiting_reply @
             [RecognitionStop 1, SynthSpeak (JStr ''Sorry, I couldn't understand.'')]\<rparr> \<and>
   questionCount first_render < 5 \<and>
   (\<exists>c3. run True
           \<lparr>store =
              \<lparr>conversation =
                 [\<lparr>role = User, mtext = JStr ''a''\<rparr>,
                  \<lparr>role = Model, mtext = JStr ''Sorry, I couldn't understand.''\<rparr>],
               userText = ''a'', aiText = JStr ''Sorry, I couldn't understand.'',
               questionCount = 2, isProcessing = False, isInterviewActive = True\<rparr>,
            render = 4,
            pending = [UtteranceOnEnd 1 first_render],
            calls = calls awaiting_reply @
              [RecognitionStop 1, SynthSpeak (JStr ''Sorry, I couldn't understand.'')]\<rparr>
           [UtteranceEnded 1 first_render, TimeoutElapsed 1 first_render] = Some c3 \<and>
         calls c3 =
           calls awaiting_reply @
           [RecognitionStop 1, SynthSpeak (JStr ''Sorry, I couldn't understand.''),
            SetTimeout 800, RecognitionStart 1] \<and>
         RecognitionOnResult 1 first_render \<in> set (pending c3))"
proof -
  let ?c1 = "\<lparr>store =
             \<lparr>conversation =
                [\<lparr>role = User, mtext = JStr ''a''\<rparr>,
                 \<lparr>role = Model, mtext = JStr ''Sorry, I couldn't understand.''\<rparr>],
              userText = ''a'', aiText = JStr ''Sorry, I couldn't understand.'',
              questionCount = 2, isProcessing = False, isInterviewActive = True\<rparr>,
           render = 4,
           pending = [UtteranceOnEnd 1 first_render],
           calls = calls awaiting_reply @
             [RecognitionStop 1, SynthSpeak (JStr ''Sorry, I couldn't understand.'')]\<rparr>"
  have none: "reply_text error_body = None"
    by (simp add: reply_text_def error_body_def)
  have reached: "run True initial_config
     [ClickStart, ClickStart, UtteranceEnded 1 first_render, TimeoutElapsed 1 first_render,
      Recognized 1 first_render ''a''] = Some awaiting_reply"
    by code_simp
  have replied: "step True awaiting_reply (Replied 1 first_render ''a'' (Parsed error_body)) =
      Some ?c1"
    by code_simp
  have below: "questionCount first_render < 5"
    by (simp add: first_render_def)
  from none have unusable: "\<not> (\<exists>v. reply_text error_body = Some v \<and> truthy v)"
    by simp
  from failed_reply_handling
    [of True 1 first_render "''a''" "store awaiting_reply" error_body
        "[ClickStart, ClickStart, UtteranceEnded 1 first_render,
          TimeoutElapsed 1 first_render, Recognized 1 first_render ''a'']"
        awaiting_reply ?c1]
    unusable reached replied below
  have "\<exists>c3. run True ?c1 [UtteranceEnded 1 first_render, TimeoutElapsed 1 first_render] =
          Some c3 \<and>
        store c3 = store ?c1 \<and>
        calls c3 = calls ?c1 @ [SetTimeout 800, RecognitionStart 1] \<and>
        RecognitionOnResult 1 first_render \<in> set (pending c3)"
    by blast
  then have "\<exists>c3. run True ?c1 [UtteranceEnded 1 first_render, TimeoutElapsed 1 first_render] =
          Some c3 \<and>
        calls c3 =
          calls awaiting_reply @
          [RecognitionStop 1, SynthSpeak (JStr ''Sorry, I couldn't understand.''),
           SetTimeout 800, RecognitionStart 1] \<and>
        RecognitionOnResult 1 first_render \<in> set (pending c3)"
    by auto
  with none reached replied below show ?thesis
    by blast
qed

text \<open>
  C3: Stop, from any state, ends the session: it deactivates the session, cancels the
  speech output, stops listening, sets the counter to 5 so that no further turn is
  attempted, and displays exactly \<^verbatim>\<open>Interview ended. Thank you!\<close>

  The stored state and the cancel are as claimed (\<open>stopInterview_effects\<close>). Listening is
  not stopped: \<^verbatim>\<open>stopListening\<close> calls \<^verbatim>\<open>stop()\<close> on the recogniser of the render that
  was clicked, and the recogniser that listens was made and started by an older render
  (\<open>stop_removes_utterances_only\<close>). Run: Start, Start, the opening question ends, the
  page listens with recogniser 1, Stop is clicked and stops recogniser 2, an answer is
  recognised: it is sent to the model, a further turn, in a session stored as ended.
\<close>

theorem stop_leaves_recogniser_listening:
  "run True initial_config
     [ClickStart, ClickStart, UtteranceEnded 1 first_render, TimeoutElapsed 1 first_render,
      ClickStop, Recognized 1 first_render ''a''] =
   Some \<lparr>store =
           \<lparr>conversation = [], userText = ''a'',
            aiText = JStr ''Interview ended. Thank you!'', questionCount = 5,
            isProcessing = True, isInterviewActive = False\<rparr>,
         render = 4,
         pending = [FetchReply 1 first_render ''a''],
         calls =
           [RecognitionStop 1, SynthSpeak (JStr firstQuestion), SetTimeout 800,
            RecognitionStart 1,
            RecognitionStop 2, SynthCancel,
            RecognitionStop 1, Fetch (request_contents first_render ''a'')]\<rparr>"
  by code_simp

text \<open>
  C4: Start, from any prior state, clears the transcript, sets the counter to 1, marks the
  session active, and at once speaks and displays
  \<^verbatim>\<open>Hello! Let's start the interview. Tell me about yourself.\<close>

  The stored state is as claimed, whatever it was before. The question is not spoken on
  the first click: \<^verbatim>\<open>speak\<close> runs in the closure of the render in which the session is
  still inactive, \<^verbatim>\<open>setIsInterviewActive(true)\<close> does not change that constant, and the
  guard of line 46 returns. Only a click in a render that is already active speaks.
\<close>

theorem first_start_speaks_nothing:
  "startInterview recognition 0 initial_state initial_state =
     (\<lparr>conversation = [], userText = [],
       aiText = JStr ''Hello! Let's start the interview. Tell me about yourself.'',
       questionCount = 1, isProcessing = False, isInterviewActive = True\<rparr>,
      [], []) \<and>
   startInterview True 1 first_render first_render =
     (first_render,
      [RecognitionStop 1,
       SynthSpeak (JStr ''Hello! Let's start the interview. Tell me about yourself.'')],
      [UtteranceOnEnd 1 first_render])"
  by (simp add: startInterview_def initial_state_def first_render_def speak_def
      stopListening_def firstQuestion_def)

text \<open>
  C5: a reply of the shape \<^verbatim>\<open>{candidates:[{content:{parts:[{text: t}]}}]}\<close> with
  \<^verbatim>\<open>t = "Next question?"\<close>, received while the session is active, appends exactly one
  turn of the interviewer, with that text, to the transcript and adds exactly 1 to the
  turn counter.

  The counter is as claimed, and the reply is the last turn stored
  (\<open>sendToGemini_reply_next_question\<close>). The transcript is not appended to: line 101
  gives \<^verbatim>\<open>setConversation\<close> the list built from \<^verbatim>\<open>conversation\<close> of the closure,
  which is the empty list of the render that started the session. Run: Start, Start, a
  first turn with the answer \<^verbatim>\<open>a\<close> and the reply \<^verbatim>\<open>q\<close>, then the answer \<^verbatim>\<open>b\<close>.
  Before the second reply the stored transcript holds \<^verbatim>\<open>a\<close> and \<^verbatim>\<open>q\<close>; after it, it
  holds \<^verbatim>\<open>b\<close> and \<^verbatim>\<open>Next question?\<close>: the first turns are gone and the number of
  turns of the interviewer is still one.
\<close>

theorem reply_replaces_stored_transcript:
  "map_option store
     (run True initial_config
        ([ClickStart, ClickStart] @ turn 1 first_render ''a'' (Parsed (payload ''q'')) @
         [UtteranceEnded 1 first_render, TimeoutElapsed 1 first_render,
          Recognized 1 first_render ''b''])) =
   Some \<lparr>conversation = [\<lparr>role = User, mtext = JStr ''a''\<rparr>, \<lparr>role = Model, mtext = JStr ''q''\<rparr>],
         userText = ''b'', aiText = JStr ''q'', questionCount = 2,
         isProcessing = True, isInterviewActive = True\<rparr> \<and>
   map_option store
     (run True initial_config
        ([ClickStart, ClickStart] @ turn 1 first_render ''a'' (Parsed (payload ''q'')) @
         [UtteranceEnded 1 first_render, TimeoutElapsed 1 first_render,
          Recognized 1 first_render ''b'',
          Replied 1 first_render ''b'' (Parsed (payload ''Next question?''))])) =
   Some \<lparr>conversation =
           [\<lparr>role = User, mtext = JStr ''b''\<rparr>,
            \<lparr>role = Model, mtext = JStr ''Next question?''\<rparr>],
         userText = ''b'', aiText = JStr ''Next question?'', questionCount = 3,
         isProcessing = False, isInterviewActive = True\<rparr>"
  by code_simp

text \<open>
  C6: at most one request is outstanding at any time; the busy flag is true while it is,
  and while the flag is true no second request is issued, even when another answer is
  recognised.

  The guards of lines 38 and 62 read \<^verbatim>\<open>isProcessing\<close> of their closure, not the stored
  flag. Run: Start, then Start twice more, which queues the opening question twice, in
  the closures of renders 1 and 2; the first utterance ends, recogniser 1 listens and the
  answer \<^verbatim>\<open>a\<close> is sent; the second utterance ends, recogniser 2 starts although the
  stored flag is true, and \<^verbatim>\<open>b\<close> is sent while the first request is still outstanding.
\<close>

theorem second_request_while_busy:
  "run True initial_config
     [ClickStart, ClickStart, ClickStart,
      UtteranceEnded 1 first_render, TimeoutElapsed 1 first_render,
      Recognized 1 first_render ''a'',
      UtteranceEnded 2 first_render, TimeoutElapsed 2 first_render,
      Recognized 2 first_render ''b''] =
   Some \<lparr>store = first_render\<lparr>userText := ''b'', isProcessing := True\<rparr>,
         render = 5,
         pending = [FetchReply 1 first_render ''a'', FetchReply 2 first_render ''b''],
         calls =
           [RecognitionStop 1, SynthSpeak (JStr firstQuestion),
            RecognitionStop 2, SynthSpeak (JStr firstQuestion),
            SetTimeout 800, RecognitionStart 1, RecognitionStop 1,
            Fetch (request_contents first_render ''a''),
            SetTimeout 800, RecognitionStart 2, RecognitionStop 2,
            Fetch (request_contents first_render ''b'')]\<rparr>"
  by code_simp

text \<open>
  C7: every answer of the candidate leads to exactly one request, whose contents are the
  system instruction and then the full transcript so far, the answer included, oldest
  turn first.

  One request per answer holds (\<open>recognized_sends_one_request\<close>). The transcript in it is
  \<^verbatim>\<open>conversation\<close> of the closure, and the closure of a session never changes: in the
  run below the second request holds the system prompt and the answer \<^verbatim>\<open>b\<close> only, while
  the stored transcript holds the first answer and the first reply.
\<close>

theorem second_request_drops_transcript:
  "run True initial_config
     ([ClickStart, ClickStart] @ turn 1 first_render ''a'' (Parsed (payload ''q'')) @
      [UtteranceEnded 1 first_render, TimeoutElapsed 1 first_render,
       Recognized 1 first_render ''b'']) =
   Some \<lparr>store =
           \<lparr>conversation = [\<lparr>role = User, mtext = JStr ''a''\<rparr>, \<lparr>role = Model, mtext = JStr ''q''\<rparr>],
            userText = ''b'', aiText = JStr ''q'', questionCount = 2,
            isProcessing = True, isInterviewActive = True\<rparr>,
         render = 5,
         pending = [FetchReply 1 first_render ''b''],
         calls =
           [RecognitionStop 1, SynthSpeak (JStr firstQuestion),
            SetTimeout 800, RecognitionStart 1, RecognitionStop 1,
            Fetch [\<lparr>crole = User, parts = [JStr systemPrompt]\<rparr>,
                   \<lparr>crole = User, parts = [JStr ''a'']\<rparr>],
            RecognitionStop 1, SynthSpeak (JStr ''q''),
            SetTimeout 800, RecognitionStart 1, RecognitionStop 1,
            Fetch [\<lparr>crole = User, parts = [JStr systemPrompt]\<rparr>,
                   \<lparr>crole = User, parts = [JStr ''b'']\<rparr>]]\<rparr>"
  by code_simp

text \<open>
  C8: the recogniser starts if and only if the session is active and not busy; in every
  reachable state in which the busy flag is true or the session is inactive,
  \<^verbatim>\<open>startListening\<close> does not start it.

  The guard of line 38 reads the constants of its closure. Run: Start, Start, the opening
  question ends and sets the timer of 800 ms, Stop is clicked, the timer elapses. The
  session is stored as inactive and the recogniser starts: the last call is
  \<^verbatim>\<open>recognition.start()\<close>.
\<close>

theorem listening_starts_after_stop:
  "run True initial_config
     [ClickStart, ClickStart, UtteranceEnded 1 first_render, ClickStop,
      TimeoutElapsed 1 first_render] =
   Some \<lparr>store =
           \<lparr>conversation = [], userText = [], aiText = JStr ''Interview ended. Thank you!'',
            questionCount = 5, isProcessing = False, isInterviewActive = False\<rparr>,
         render = 3,
         pending = [RecognitionOnResult 1 first_render],
         calls =
           [RecognitionStop 1, SynthSpeak (JStr firstQuestion), SetTimeout 800,
            RecognitionStop 2, SynthCancel, RecognitionStart 1]\<rparr>"
  by code_simp

text \<open>
  C9: \<^verbatim>\<open>speak\<close> does nothing when the session is inactive, so a reply that arrives after
  Stop triggers no speech; when the session is active it stops the recogniser and then
  renders the utterance.

  \<^verbatim>\<open>speak\<close> tests \<^verbatim>\<open>isInterviewActive\<close> of its closure (line 46). The continuation of
  a request runs in the closure that sent it, where the session is active. Run: Start,
  Start, one answer is sent, Stop is clicked, the reply arrives: it is spoken after the
  cancel, it replaces the text \<^verbatim>\<open>Interview ended. Thank you!\<close>, and the counter is 6.
\<close>

theorem late_reply_spoken_after_stop:
  "run True initial_config
     [ClickStart, ClickStart, UtteranceEnded 1 first_render, TimeoutElapsed 1 first_render,
      Recognized 1 first_render ''a'', ClickStop,
      Replied 1 first_render ''a'' (Parsed (payload ''Next question?''))] =
   Some \<lparr>store =
           \<lparr>conversation =
              [\<lparr>role = User, mtext = JStr ''a''\<rparr>,
               \<lparr>role = Model, mtext = JStr ''Next question?''\<rparr>],
            userText = ''a'', aiText = JStr ''Next question?'', questionCount = 6,
            isProcessing = False, isInterviewActive = False\<rparr>,
         render = 5,
         pending = [UtteranceOnEnd 1 first_render],
         calls =
           [RecognitionStop 1, SynthSpeak (JStr firstQuestion), SetTimeout 800,
            RecognitionStart 1, RecognitionStop 1,
            Fetch (request_contents first_render ''a''),
            RecognitionStop 3, SynthCancel,
            RecognitionStop 1, SynthSpeak (JStr ''Next question?'')]\<rparr>"
  by code_simp

text \<open>
  C10: when the reply has the expected shape and its text is the empty string, the
  request step records and displays \<^verbatim>\<open>Sorry, I couldn't understand.\<close> in its place:
  \<^verbatim>\<open>||\<close> takes the empty string for a missing one.
\<close>

theorem empty_reply_falls_back:
  assumes "reply_text data = Some (JStr [])"
  shows "sendToGemini_reply recognition k r msg (Parsed data) s =
     (s\<lparr>conversation :=
          updatedConversation r msg @
          [\<lparr>role = Model, mtext = JStr ''Sorry, I couldn't understand.''\<rparr>],
        aiText := JStr ''Sorry, I couldn't understand.'',
        questionCount := questionCount s + 1,
        isProcessing := False\<rparr>,
      speak recognition k r (JStr ''Sorry, I couldn't understand.''))"
  using assms by (simp add: sendToGemini_reply_def aiReply_of_def fallback_def Let_def)

theorem empty_reply_falls_back_witness:
  "reply_text (payload []) = Some (JStr []) \<and>
   sendToGemini_reply True 1 first_render ''a'' (Parsed (payload []))
     (first_render\<lparr>userText := ''a'', isProcessing := True\<rparr>) =
   (\<lparr>conversation =
       [\<lparr>role = User, mtext = JStr ''a''\<rparr>,
        \<lparr>role = Model, mtext = JStr ''Sorry, I couldn't understand.''\<rparr>],
     userText = ''a'', aiText = JStr ''Sorry, I couldn't understand.'',
     questionCount = 2, isProcessing = False, isInterviewActive = True\<rparr>,
    [RecognitionStop 1, SynthSpeak (JStr ''Sorry, I couldn't understand.'')],
    [UtteranceOnEnd 1 first_render])"
proof -
  have shape: "reply_text (payload []) = Some (JStr [])"
    by (rule reply_text_payload)
  from empty_reply_falls_back
    [OF shape, of True 1 first_render "''a''"
       "first_render\<lparr>userText := ''a'', isProcessing := True\<rparr>"]
  show ?thesis
    using shape
    by (simp add: first_render_def updatedConversation_def speak_def stopListening_def)
qed

end
